theory Spec2Isabelle
  imports Complex_Main
begin

section \<open>Numeric algorithms: nearest-index search\<close>

text \<open>
  \<^verbatim>\<open>binarySearchNearest(dataList, valueKey, targetValue)\<close> reads \<^verbatim>\<open>dataList[i][valueKey]\<close>.
  In JavaScript an index outside the array yields \<^verbatim>\<open>undefined\<close>, and the property access on
  it raises a TypeError.  The model makes every array read explicit: \<open>at_index\<close> is the read,
  a failed read ends the call with \<open>TypeError i\<close> (\<open>i\<close> the offending index; \<open>RangeError\<close> is
  the other error of this development, raised by \<^verbatim>\<open>toFixed\<close> below), and every call
  returns, next to its result, the list of the indices it read, in the order of the reads.
  Indices are \<open>int\<close>, as \<^verbatim>\<open>right\<close> starts at \<^verbatim>\<open>length - 1\<close>, which is \<open>-1\<close> on the empty list.
  The key accessor \<^verbatim>\<open>valueKey\<close> is a function into a linear order.
\<close>

datatype error = TypeError int | RangeError

definition at_index :: "'a list \<Rightarrow> int \<Rightarrow> 'a option" where
  "at_index xs i = (if 0 \<le> i \<and> i < int (length xs) then Some (xs ! nat i) else None)"

text \<open>What one pass through the body of the \<^verbatim>\<open>for\<close> loop ends with.\<close>

datatype iteration = Return int | Next int int | Throw error

text \<open>
  The loop body, lines 104 to 125: the reads of \<^verbatim>\<open>dataList[midIndex]\<close>, \<^verbatim>\<open>dataList[left]\<close>
  and \<^verbatim>\<open>dataList[right]\<close> happen in this order, each only if the code reaches it; the three
  equality tests return; then the window moves and the loop breaks when the width \<^verbatim>\<open>mid\<close>
  measured before the move is at most 2 (the \<^verbatim>\<open>break\<close> leads to \<^verbatim>\<open>return left\<close>).
\<close>

definition binarySearchNearest_body ::
  "'a list \<Rightarrow> ('a \<Rightarrow> 'k::linorder) \<Rightarrow> 'k \<Rightarrow> int \<Rightarrow> int \<Rightarrow> int list \<times> iteration" where
  "binarySearchNearest_body dataList valueKey targetValue left right =
    (let midIndex = (right + left) div 2;
         mid = right - left
     in case at_index dataList midIndex of
          None \<Rightarrow> ([midIndex], Throw (TypeError midIndex))
        | Some m \<Rightarrow>
           (let midValue = valueKey m
            in case at_index dataList left of
                 None \<Rightarrow> ([midIndex, left], Throw (TypeError left))
               | Some l \<Rightarrow>
                  if targetValue = valueKey l then ([midIndex, left], Return left)
                  else
                   (case at_index dataList right of
                      None \<Rightarrow> ([midIndex, left, right], Throw (TypeError right))
                    | Some r \<Rightarrow>
                       if targetValue = valueKey r then ([midIndex, left, right], Return right)
                       else if targetValue = midValue then ([midIndex, left, right], Return midIndex)
                       else
                        (let left' = (if targetValue > midValue then midIndex else left);
                             right' = (if targetValue > midValue then right else midIndex)
                         in if mid \<le> 2 then ([midIndex, left, right], Return left')
                            else ([midIndex, left, right], Next left' right')))))"

text \<open>
  The loop, line 103: it is left when \<^verbatim>\<open>left === right\<close>, and \<^verbatim>\<open>return left\<close> follows.
\<close>

function binarySearchNearest_loop ::
  "'a list \<Rightarrow> ('a \<Rightarrow> 'k::linorder) \<Rightarrow> 'k \<Rightarrow> int \<Rightarrow> int \<Rightarrow> int list \<times> (error + int)" where
  "binarySearchNearest_loop dataList valueKey targetValue left right =
    (if left = right then ([], Inr left)
     else case binarySearchNearest_body dataList valueKey targetValue left right of
            (rs, Throw e) \<Rightarrow> (rs, Inl e)
          | (rs, Return i) \<Rightarrow> (rs, Inr i)
          | (rs, Next l r) \<Rightarrow>
              (case binarySearchNearest_loop dataList valueKey targetValue l r of
                 (rs', res) \<Rightarrow> (rs @ rs', res)))"
  by pat_completeness auto
termination
  by (relation "measure (\<lambda>(dataList, valueKey, targetValue, left, right). nat (right - left))")
     (auto simp: binarySearchNearest_body_def Let_def split: option.splits if_splits)

declare binarySearchNearest_loop.simps [simp del]

text \<open>
  The function itself, lines 100 to 128: \<^verbatim>\<open>left = 0\<close>, \<^verbatim>\<open>right = dataList.length - 1\<close>.
  \<open>binarySearchNearest\<close> is the value returned (or the error raised),
  \<open>binarySearchNearest_reads\<close> the indices read on the way.
\<close>

definition binarySearchNearest :: "'a list \<Rightarrow> ('a \<Rightarrow> 'k::linorder) \<Rightarrow> 'k \<Rightarrow> error + int" where
  "binarySearchNearest dataList valueKey targetValue =
     snd (binarySearchNearest_loop dataList valueKey targetValue 0 (int (length dataList) - 1))"

definition binarySearchNearest_reads :: "'a list \<Rightarrow> ('a \<Rightarrow> 'k::linorder) \<Rightarrow> 'k \<Rightarrow> int list" where
  "binarySearchNearest_reads dataList valueKey targetValue =
     fst (binarySearchNearest_loop dataList valueKey targetValue 0 (int (length dataList) - 1))"


section \<open>Numbers\<close>

text \<open>
  The numbers of the program are IEEE doubles.  A double is modelled by the real it
  denotes; an arithmetic operation of the program is the exact operation followed by the
  rounding of its result to a double.  The rounding is not computed here: \<open>to_double\<close>
  leaves an integer of magnitude at most \<open>2^53\<close> as it is (such an integer is a double)
  and moves any other real by a relative error of at most \<open>2^-53\<close>, which the record
  \<open>double_arith\<close> supplies and \<open>bounded\<close> cuts to that size.  So every statement made for
  all \<open>double_arith\<close> holds of the doubles, within the range of normal numbers.
  \<^verbatim>\<open>Math.pow\<close> and \<^verbatim>\<open>Math.log10\<close> are approximated by the platform: \<^verbatim>\<open>Math.pow(10, 0)\<close> is 1,
  any other power of ten is taken within a relative error of \<open>2^-50\<close>, and the logarithm of
  a positive number within \<open>1/16\<close> of the real logarithm.  A result that is not a number
  is \<open>NaN\<close>.
\<close>

record double_arith =
  round_error :: "real \<Rightarrow> real"
  pow_error :: "int \<Rightarrow> real"
  log10_error :: "real \<Rightarrow> real"

datatype number = Value real | NaN

definition bounded :: "real \<Rightarrow> real \<Rightarrow> real" where
  "bounded b e = max (- b) (min b e)"

definition to_double :: "double_arith \<Rightarrow> real \<Rightarrow> real" where
  "to_double fp x =
     (if of_int \<lfloor>x\<rfloor> = x \<and> \<bar>x\<bar> \<le> 2 ^ 53 then x
      else x * (1 + bounded (1 / 2 ^ 53) (round_error fp x)))"

definition fmul :: "double_arith \<Rightarrow> real \<Rightarrow> real \<Rightarrow> real" where
  "fmul fp x y = to_double fp (x * y)"

definition fdiv :: "double_arith \<Rightarrow> real \<Rightarrow> real \<Rightarrow> real" where
  "fdiv fp x y = to_double fp (x / y)"

text \<open>\<^verbatim>\<open>Math.round\<close>: the integer nearest to a double, the larger one at a tie.\<close>

definition js_round :: "real \<Rightarrow> real" where
  "js_round x = of_int \<lfloor>x + 1 / 2\<rfloor>"

section \<open>Numeric algorithms: tick values\<close>

text \<open>
  \<^verbatim>\<open>log10(value)\<close>, lines 232 to 237: 0 for 0, else \<^verbatim>\<open>Math.log10\<close>, which is not a number on a
  negative argument.
\<close>

definition log10 :: "double_arith \<Rightarrow> real \<Rightarrow> number" where
  "log10 fp value =
     (if value = 0 then Value 0
      else if value < 0 then NaN
      else Value (log 10 value + bounded (1 / 16) (log10_error fp value)))"

text \<open>\<^verbatim>\<open>index10(value)\<close>, lines 248 to 250, on the whole numbers \<^verbatim>\<open>nice\<close> passes to it.\<close>

definition index10 :: "double_arith \<Rightarrow> int \<Rightarrow> real" where
  "index10 fp exponent =
     (if exponent = 0 then 1
      else 10 powr (of_int exponent) * (1 + bounded (1 / 2 ^ 50) (pow_error fp exponent)))"

text \<open>
  \<^verbatim>\<open>+value.toFixed(digits)\<close>, line 160: \<^verbatim>\<open>toFixed\<close> raises a RangeError unless the digits are
  between 0 and 100; a number of magnitude \<open>10^21\<close> or more is printed in full and read
  back as itself; any other is printed as the nearest decimal with that many digits, the
  larger one at a tie, and the unary plus reads the decimal as a double.
\<close>

definition toFixed :: "double_arith \<Rightarrow> real \<Rightarrow> int \<Rightarrow> error + number" where
  "toFixed fp x digits =
     (if digits < 0 \<or> 100 < digits then Inl RangeError
      else if 10 ^ 21 \<le> \<bar>x\<bar> then Inr (Value x)
      else Inr (Value (to_double fp (of_int \<lfloor>x * 10 ^ nat digits + 1 / 2\<rfloor> / 10 ^ nat digits))))"

text \<open>
  \<^verbatim>\<open>nice(value)\<close>, lines 139 to 161.  On a negative value the logarithm is not a number, and
  neither is anything computed from it: every comparison fails, \<^verbatim>\<open>toFixed\<close> takes the
  digits as 0 and prints \<^verbatim>\<open>NaN\<close>.
\<close>

definition nice :: "double_arith \<Rightarrow> real \<Rightarrow> error + number" where
  "nice fp value =
     (case log10 fp value of
        NaN \<Rightarrow> Inr NaN
      | Value l \<Rightarrow>
         (let exponent = \<lfloor>l\<rfloor>;
              exp10 = index10 fp exponent;
              f = fdiv fp value exp10;
              nf = (if f < 15 / 10 then 1
                    else if f < 25 / 10 then 2
                    else if f < 35 / 10 then 3
                    else if f < 45 / 10 then 4
                    else if f < 55 / 10 then 5
                    else if f < 65 / 10 then 6
                    else 8)
          in toFixed fp (fmul fp nf exp10) \<bar>exponent\<bar>))"

section \<open>Surface manager (Canvas)\<close>

text \<open>
  The class \<^verbatim>\<open>Canvas\<close> as a record of its private fields, followed by the parts of the
  platform it acts on: the inline style and the size attributes of the canvas element, the
  scale of the 2-D context, whether the ResizeObserver observes the element, whether the
  media-query listener is attached, and the platform's list of frame callbacks requested by
  this canvas and not yet run.  Three counters record effects: the frame requests issued,
  the calls of the paint listener \<^verbatim>\<open>_listener\<close>, and the runs of the closure of
  \<^verbatim>\<open>_resetPixelRatio\<close> (the physical reconciliation), next to the calls of \<^verbatim>\<open>clearRect\<close>.

  A frame callback built by \<^verbatim>\<open>_executeListener(fn)\<close> differs from another only in its
  optional \<^verbatim>\<open>fn\<close>, which is absent (\<open>NoFn\<close>) or the closure passed by \<^verbatim>\<open>_resetPixelRatio\<close>
  (\<open>ResetFn\<close>).  The products and quotients of the code are those of the doubles, \<open>fmul\<close>
  and \<open>fdiv\<close>; \<^verbatim>\<open>Math.round\<close> is \<open>js_round\<close>.  What the code reads from
  the platform when it runs (\<^verbatim>\<open>clientWidth\<close>, \<^verbatim>\<open>clientHeight\<close>, the pixel ratio, the size
  reported by the ResizeObserver) is an argument of the operation that reads it.  The paint
  listener is the caller's; it is taken not to call back into the canvas.
\<close>

datatype frameFn = NoFn | ResetFn

record canvas =
  supportedDevicePixelContentBox :: bool
  width :: real
  height :: real
  pixelWidth :: real
  pixelHeight :: real
  nextPixelWidth :: real
  nextPixelHeight :: real
  requestAnimationId :: int
  resizeObserver :: bool
  mediaQueryList :: bool
  styleWidth :: "real option"
  styleHeight :: "real option"
  elementWidth :: real
  elementHeight :: real
  ctxScale :: "real \<times> real"
  observing :: bool
  listening :: bool
  frameQueue :: "frameFn list"
  frameRequests :: nat
  listenerCalls :: nat
  reconciliations :: nat
  clearRects :: nat

definition DEFAULT_REQUEST_ID :: int where
  "DEFAULT_REQUEST_ID = - 1"

text \<open>
  The constructor, lines 118 to 143, up to the point where the capability probe is pending:
  the fields have their initialisers, \<^verbatim>\<open>_resizeObserver\<close> and \<^verbatim>\<open>_mediaQueryList\<close> are
  undefined, nothing is observed.  A fresh canvas element is 300 by 150 and its context
  is unscaled.
\<close>

definition newCanvas :: canvas where
  "newCanvas =
     \<lparr> supportedDevicePixelContentBox = False, width = 0, height = 0,
       pixelWidth = 0, pixelHeight = 0, nextPixelWidth = 0, nextPixelHeight = 0,
       requestAnimationId = DEFAULT_REQUEST_ID,
       resizeObserver = False, mediaQueryList = False,
       styleWidth = None, styleHeight = None, elementWidth = 300, elementHeight = 150,
       ctxScale = (1, 1), observing = False, listening = False,
       frameQueue = [], frameRequests = 0, listenerCalls = 0, reconciliations = 0,
       clearRects = 0 \<rparr>"

text \<open>
  \<^verbatim>\<open>requestAnimationFrame(callback)\<close> of the platform: the callback joins the list, and the
  handle returned is positive and one more than the last (so it is never
  \<^verbatim>\<open>DEFAULT_REQUEST_ID\<close>).
\<close>

definition requestAnimationFrame :: "frameFn \<Rightarrow> canvas \<Rightarrow> int \<times> canvas" where
  "requestAnimationFrame fn c =
     (int (Suc (frameRequests c)),
      c\<lparr>frameQueue := frameQueue c @ [fn], frameRequests := Suc (frameRequests c)\<rparr>)"

text \<open>\<^verbatim>\<open>_executeListener(fn)\<close>, lines 169 to 178.\<close>

definition executeListener :: "frameFn \<Rightarrow> canvas \<Rightarrow> canvas" where
  "executeListener fn c =
     (if requestAnimationId c = DEFAULT_REQUEST_ID
      then (case requestAnimationFrame fn c of (handle, c') \<Rightarrow> c'\<lparr>requestAnimationId := handle\<rparr>)
      else c)"

text \<open>\<^verbatim>\<open>_resetPixelRatio()\<close>, lines 149 to 163: it only hands its closure to \<^verbatim>\<open>_executeListener\<close>.\<close>

definition resetPixelRatio :: "canvas \<Rightarrow> canvas" where
  "resetPixelRatio c = executeListener ResetFn c"

text \<open>
  The closure of \<^verbatim>\<open>_resetPixelRatio\<close>, lines 151 to 161, run with the element's
  \<^verbatim>\<open>clientWidth\<close> and \<^verbatim>\<open>clientHeight\<close>.  Assigning the element's size resets the context's
  transform; \<^verbatim>\<open>scale\<close> does nothing when an argument is not finite, which is the case when
  the client width or height is 0.
\<close>

definition resetPixelRatio_fn :: "double_arith \<Rightarrow> real \<Rightarrow> real \<Rightarrow> canvas \<Rightarrow> canvas" where
  "resetPixelRatio_fn fp clientWidth clientHeight c =
     c\<lparr>width := clientWidth, height := clientHeight,
        pixelWidth := nextPixelWidth c, pixelHeight := nextPixelHeight c,
        elementWidth := nextPixelWidth c, elementHeight := nextPixelHeight c,
        ctxScale := (if clientWidth = 0 \<or> clientHeight = 0 then (1, 1)
                     else (fdiv fp (nextPixelWidth c) clientWidth,
                           fdiv fp (nextPixelHeight c) clientHeight)),
        reconciliations := Suc (reconciliations c)\<rparr>"

text \<open>The frame callback built in \<^verbatim>\<open>_executeListener\<close>, lines 171 to 176.\<close>

definition frameCallback :: "double_arith \<Rightarrow> frameFn \<Rightarrow> real \<Rightarrow> real \<Rightarrow> canvas \<Rightarrow> canvas" where
  "frameCallback fp fn clientWidth clientHeight c =
     (let c1 = c\<lparr>clearRects := Suc (clearRects c)\<rparr>;
          c2 = (case fn of NoFn \<Rightarrow> c1 | ResetFn \<Rightarrow> resetPixelRatio_fn fp clientWidth clientHeight c1);
          c3 = c2\<lparr>listenerCalls := Suc (listenerCalls c2)\<rparr>
      in c3\<lparr>requestAnimationId := DEFAULT_REQUEST_ID\<rparr>)"

text \<open>
  The platform runs the oldest frame callback of the list, if there is one.
\<close>

definition fireFrame :: "double_arith \<Rightarrow> real \<Rightarrow> real \<Rightarrow> canvas \<Rightarrow> canvas" where
  "fireFrame fp clientWidth clientHeight c =
     (case frameQueue c of
        [] \<Rightarrow> c
      | fn # rest \<Rightarrow> frameCallback fp fn clientWidth clientHeight (c\<lparr>frameQueue := rest\<rparr>))"

text \<open>\<^verbatim>\<open>update(w, h)\<close>, lines 185 to 198; \<open>pixelRatio\<close> is what \<^verbatim>\<open>getPixelRatio\<close> returns.\<close>

definition update :: "double_arith \<Rightarrow> real \<Rightarrow> real \<Rightarrow> real \<Rightarrow> canvas \<Rightarrow> canvas" where
  "update fp w h pixelRatio c =
     (if width c \<noteq> w \<or> height c \<noteq> h
      then (let c1 = c\<lparr>styleWidth := Some w, styleHeight := Some h\<rparr>
            in if \<not> supportedDevicePixelContentBox c1
               then resetPixelRatio
                      (c1\<lparr>nextPixelWidth := js_round (fmul fp w pixelRatio),
                          nextPixelHeight := js_round (fmul fp h pixelRatio)\<rparr>)
               else c1)
      else executeListener NoFn c)"

text \<open>\<^verbatim>\<open>_mediaQueryListener\<close>, lines 111 to 116: the density-change notification.\<close>

definition mediaQueryListener :: "double_arith \<Rightarrow> real \<Rightarrow> real \<Rightarrow> real \<Rightarrow> canvas \<Rightarrow> canvas" where
  "mediaQueryListener fp clientWidth clientHeight pixelRatio c =
     resetPixelRatio
       (c\<lparr>nextPixelWidth := js_round (fmul fp clientWidth pixelRatio),
          nextPixelHeight := js_round (fmul fp clientHeight pixelRatio)\<rparr>)"

text \<open>
  The callback of the ResizeObserver, lines 125 to 135; \<open>boxSize\<close> is
  \<^verbatim>\<open>devicePixelContentBoxSize[0]\<close> of the entry of this element (\<open>None\<close> when there is no
  such entry), as the pair of \<^verbatim>\<open>inlineSize\<close> and \<^verbatim>\<open>blockSize\<close>.
\<close>

definition resizeObserverCallback :: "(real \<times> real) option \<Rightarrow> canvas \<Rightarrow> canvas" where
  "resizeObserverCallback boxSize c =
     (case boxSize of
        None \<Rightarrow> c
      | Some (inlineSize, blockSize) \<Rightarrow>
          (let c1 = c\<lparr>nextPixelWidth := inlineSize, nextPixelHeight := blockSize\<rparr>
           in if pixelWidth c1 \<noteq> nextPixelWidth c1 \<or> pixelHeight c1 \<noteq> nextPixelHeight c1
              then resetPixelRatio c1 else c1))"

text \<open>
  The continuation of the capability probe, lines 122 to 142, run when the promise of
  \<^verbatim>\<open>isSupportedDevicePixelContentBox\<close> resolves with \<open>result\<close>.
\<close>

definition probeResolved :: "bool \<Rightarrow> canvas \<Rightarrow> canvas" where
  "probeResolved result c =
     (let c1 = c\<lparr>supportedDevicePixelContentBox := result\<rparr>
      in if result then c1\<lparr>resizeObserver := True, observing := True\<rparr>
         else c1\<lparr>mediaQueryList := True, listening := True\<rparr>)"

text \<open>
  \<^verbatim>\<open>destroy()\<close>, lines 220 to 228.  Both member calls are guarded by \<^verbatim>\<open>isValid\<close>, so the
  method has no path that raises.
\<close>

definition destroy :: "canvas \<Rightarrow> canvas" where
  "destroy c =
     (let c1 = (if resizeObserver c then c\<lparr>observing := False\<rparr> else c)
      in if mediaQueryList c1 then c1\<lparr>listening := False\<rparr> else c1)"

section \<open>Animation driver\<close>

text \<open>
  The class \<^verbatim>\<open>Animation\<close> as a record: the two options, the registered frame callback
  (\<open>None\<close> while \<^verbatim>\<open>_doFrameCallback\<close> is unset; a callback is named by a number, its
  reference), the iteration counter, the running flag and the start timestamp.  Two more
  fields stand for the world around it: \<open>scheduled\<close> counts the \<^verbatim>\<open>step\<close> closures handed to
  \<^verbatim>\<open>requestAnimationFrame\<close> and not yet run (every such closure reads the same object and
  none holds a state of its own, so they need not be told apart), and \<open>invocations\<close> lists,
  in order, the calls made to the frame callback, each with its argument.  Timestamps and
  durations are integers (milliseconds).  The frame callback is the caller's; it is taken
  not to call back into the driver.
\<close>

record animation =
  duration :: int
  iterationCount :: int
  doFrameCallback :: "nat option"
  currentIterationCount :: int
  running :: bool
  time :: int
  scheduled :: nat
  invocations :: "(nat \<times> int) list"

text \<open>
  The constructor, lines 49 to 81: \<^verbatim>\<open>merge\<close> overwrites a default by each option that
  is given.
\<close>

definition newAnimation :: "int option \<Rightarrow> int option \<Rightarrow> animation" where
  "newAnimation optDuration optIterationCount =
     \<lparr> duration = (case optDuration of None \<Rightarrow> 500 | Some d \<Rightarrow> d),
       iterationCount = (case optIterationCount of None \<Rightarrow> 1 | Some n \<Rightarrow> n),
       doFrameCallback = None, currentIterationCount = 0, running = False, time = 0,
       scheduled = 0, invocations = [] \<rparr>"

text \<open>\<^verbatim>\<open>this._doFrameCallback?.(frameTime)\<close>: a call only if a callback is registered.\<close>

definition invokeDoFrameCallback :: "int \<Rightarrow> animation \<Rightarrow> animation" where
  "invokeDoFrameCallback frameTime a =
     (case doFrameCallback a of
        None \<Rightarrow> a
      | Some callback \<Rightarrow> a\<lparr>invocations := invocations a @ [(callback, frameTime)]\<rparr>)"

text \<open>\<^verbatim>\<open>requestAnimationFrame(step)\<close>: one more closure waits for a frame.\<close>

definition requestStep :: "animation \<Rightarrow> animation" where
  "requestStep a = a\<lparr>scheduled := Suc (scheduled a)\<rparr>"

text \<open>\<^verbatim>\<open>_loop()\<close>, lines 87 to 105, without the body of \<^verbatim>\<open>step\<close>.\<close>

definition loop :: "animation \<Rightarrow> animation" where
  "loop a = requestStep (a\<lparr>running := True\<rparr>)"

text \<open>\<^verbatim>\<open>start()\<close>, lines 141 to 146; \<open>now\<close> is \<^verbatim>\<open>new Date().getTime()\<close>.\<close>

definition start :: "int \<Rightarrow> animation \<Rightarrow> animation" where
  "start now a = (if \<not> running a then loop (a\<lparr>time := now\<rparr>) else a)"

text \<open>\<^verbatim>\<open>stop()\<close>, lines 152 to 157.\<close>

definition stop :: "animation \<Rightarrow> animation" where
  "stop a =
     (let a1 = (if running a then invokeDoFrameCallback (duration a) a else a)
      in a1\<lparr>running := False\<rparr>)"

text \<open>
  The closure \<^verbatim>\<open>step\<close>, lines 89 to 103; \<open>now\<close> is the clock read at line 91 and
  \<open>now'\<close> the clock read by the \<^verbatim>\<open>start()\<close> of line 99, if the code gets there.
\<close>

definition step :: "int \<Rightarrow> int \<Rightarrow> animation \<Rightarrow> animation" where
  "step now now' a =
     (if running a
      then (let diffTime = now - time a
            in if diffTime < duration a
               then requestStep (invokeDoFrameCallback diffTime a)
               else (let a1 = stop a;
                         a2 = a1\<lparr>currentIterationCount := currentIterationCount a1 + 1\<rparr>
                     in if currentIterationCount a2 < iterationCount a2
                        then start now' a2 else a2))
      else a)"

text \<open>The platform runs one of the waiting \<^verbatim>\<open>step\<close> closures, if there is one.\<close>

definition frame :: "int \<Rightarrow> int \<Rightarrow> animation \<Rightarrow> animation" where
  "frame now now' a =
     (case scheduled a of
        0 \<Rightarrow> a
      | Suc n \<Rightarrow> step now now' (a\<lparr>scheduled := n\<rparr>))"

text \<open>\<^verbatim>\<open>doFrame\<close>, \<^verbatim>\<open>setDuration\<close> and \<^verbatim>\<open>setIterationCount\<close>, lines 112 to 135.\<close>

definition doFrame :: "nat \<Rightarrow> animation \<Rightarrow> animation" where
  "doFrame callback a = a\<lparr>doFrameCallback := Some callback\<rparr>"

definition setDuration :: "int \<Rightarrow> animation \<Rightarrow> animation" where
  "setDuration d a = a\<lparr>duration := d\<rparr>"

definition setIterationCount :: "int \<Rightarrow> animation \<Rightarrow> animation" where
  "setIterationCount n a = a\<lparr>iterationCount := n\<rparr>"

text \<open>What can happen to a driver, and a run of such events in order.\<close>

datatype animation_event =
    Start int
  | Stop
  | Frame int int
  | DoFrame nat
  | SetDuration int
  | SetIterationCount int

fun animation_step :: "animation \<Rightarrow> animation_event \<Rightarrow> animation" where
  "animation_step a (Start now) = start now a"
| "animation_step a Stop = stop a"
| "animation_step a (Frame now now') = frame now now' a"
| "animation_step a (DoFrame callback) = doFrame callback a"
| "animation_step a (SetDuration d) = setDuration d a"
| "animation_step a (SetIterationCount n) = setIterationCount n a"

definition animation_run :: "animation \<Rightarrow> animation_event list \<Rightarrow> animation" where
  "animation_run a events = foldl animation_step a events"


section \<open>Event dispatch tree\<close>

text \<open>
  A node of class \<^verbatim>\<open>Eventful\<close>: its identity (the object reference, a number), the override
  of \<^verbatim>\<open>checkEventOn\<close> a subclass may give (\<open>None\<close> for the inherited method), the map
  \<^verbatim>\<open>_callbacks\<close> from event names to handlers, and the list \<^verbatim>\<open>_children\<close> in insertion
  order.  A handler takes the event and the optional number \<^verbatim>\<open>other\<close> and returns whether it
  consumed the event.  Every dispatch returns, next to its boolean, the identities of the
  nodes whose handler was called, in the order of the calls.
\<close>

type_synonym 'e handler = "'e \<Rightarrow> int option \<Rightarrow> bool"

datatype ('n, 'e) eventful =
  Eventful (ident: nat) (hitTest: "('e \<Rightarrow> bool) option")
           (callbacks: "'n \<Rightarrow> 'e handler option") (children: "('n, 'e) eventful list")

text \<open>\<^verbatim>\<open>registerEvent\<close>, \<^verbatim>\<open>addChild\<close> and \<^verbatim>\<open>clear\<close>, lines 214 to 217 and 273 to 283.\<close>

fun registerEvent :: "'n \<Rightarrow> 'e handler \<Rightarrow> ('n, 'e) eventful \<Rightarrow> ('n, 'e) eventful" where
  "registerEvent name callback (Eventful i ht cbs cs) = Eventful i ht (cbs(name \<mapsto> callback)) cs"

fun addChild :: "('n, 'e) eventful \<Rightarrow> ('n, 'e) eventful \<Rightarrow> ('n, 'e) eventful" where
  "addChild child (Eventful i ht cbs cs) = Eventful i ht cbs (cs @ [child])"

fun clear :: "('n, 'e) eventful \<Rightarrow> ('n, 'e) eventful" where
  "clear (Eventful i ht cbs cs) = Eventful i ht cbs []"

text \<open>\<^verbatim>\<open>checkEventOn\<close>, lines 239 to 246, or the override of the subclass.\<close>

fun checkEventOn :: "('n, 'e) eventful \<Rightarrow> 'e \<Rightarrow> bool" where
  "checkEventOn (Eventful i ht cbs cs) event =
     (case ht of
        Some overridden \<Rightarrow> overridden event
      | None \<Rightarrow> list_ex (\<lambda>ful. checkEventOn ful event) cs)"

text \<open>\<^verbatim>\<open>onEvent\<close>, lines 226 to 232.\<close>

definition onEvent :: "('n, 'e) eventful \<Rightarrow> 'n \<Rightarrow> 'e \<Rightarrow> int option \<Rightarrow> bool \<times> nat list" where
  "onEvent node name event other =
     (case callbacks node name of
        Some callback \<Rightarrow>
          if checkEventOn node event then (callback event other, [ident node]) else (False, [])
      | None \<Rightarrow> (False, []))"

text \<open>
  The loop of \<^verbatim>\<open>dispatchEvent\<close>, lines 259 to 263, over the children in the order they are
  tried: it returns at the first child whose dispatch returns true.
\<close>

fun dispatchEvent_loop :: "('a \<Rightarrow> bool \<times> nat list) \<Rightarrow> 'a list \<Rightarrow> bool \<times> nat list" where
  "dispatchEvent_loop dispatch [] = (False, [])"
| "dispatchEvent_loop dispatch (child # rest) =
     (case dispatch child of
        (handled, called) \<Rightarrow>
          if handled then (True, called)
          else (case dispatchEvent_loop dispatch rest of
                  (handled', called') \<Rightarrow> (handled', called @ called')))"

lemma dispatchEvent_loop_cong [fundef_cong]:
  assumes "xs = ys" and "\<And>x. x \<in> set ys \<Longrightarrow> f x = g x"
  shows "dispatchEvent_loop f xs = dispatchEvent_loop g ys"
  unfolding assms(1) using assms(2) by (induction ys) (auto split: prod.splits)

text \<open>
  \<^verbatim>\<open>dispatchEvent\<close>, lines 256 to 266: the index runs from the last child down to the
  first, so the children are tried in the reverse of their insertion order.
\<close>

fun dispatchEvent :: "('n, 'e) eventful \<Rightarrow> 'n \<Rightarrow> 'e \<Rightarrow> int option \<Rightarrow> bool \<times> nat list" where
  "dispatchEvent (Eventful i ht cbs cs) name event other =
     (case dispatchEvent_loop (\<lambda>child. dispatchEvent child name event other) (rev cs) of
        (handled, called) \<Rightarrow>
          if handled then (True, called)
          else (case onEvent (Eventful i ht cbs cs) name event other of
                  (handled', called') \<Rightarrow> (handled', called @ called')))"

text \<open>The identities of a node and of all the nodes below it.\<close>

fun idents :: "('n, 'e) eventful \<Rightarrow> nat list" where
  "idents (Eventful i ht cbs cs) = i # concat (map idents cs)"

section \<open>Action bus\<close>

text \<open>
  The class \<^verbatim>\<open>Action\<close>: the array \<^verbatim>\<open>_callbacks\<close>.  A callback is a value of a type \<open>'c\<close>
  that stands for its reference, as \<^verbatim>\<open>indexOf\<close> compares references.  \<open>execute\<close> returns the
  calls it makes, in order, each with the data passed.
\<close>

record 'c action =
  action_callbacks :: "'c list"

definition newAction :: "'c action" where
  "newAction = \<lparr> action_callbacks = [] \<rparr>"

text \<open>\<^verbatim>\<open>subscribe\<close>, lines 355 to 360: \<^verbatim>\<open>indexOf\<close> is negative when the callback is absent.\<close>

definition subscribe :: "'c \<Rightarrow> 'c action \<Rightarrow> 'c action" where
  "subscribe callback a =
     (if callback \<notin> set (action_callbacks a)
      then a\<lparr>action_callbacks := action_callbacks a @ [callback]\<rparr>
      else a)"

text \<open>
  \<^verbatim>\<open>unsubscribe\<close>, lines 377 to 386: with a function, \<^verbatim>\<open>splice\<close> removes the first
  occurrence found by \<^verbatim>\<open>indexOf\<close>; with no argument the array is replaced by an empty one.
\<close>

definition unsubscribe :: "'c option \<Rightarrow> 'c action \<Rightarrow> 'c action" where
  "unsubscribe callback a =
     (case callback of
        Some f \<Rightarrow> a\<lparr>action_callbacks := remove1 f (action_callbacks a)\<rparr>
      | None \<Rightarrow> a\<lparr>action_callbacks := []\<rparr>)"

text \<open>\<^verbatim>\<open>execute\<close>, lines 396 to 400, and \<^verbatim>\<open>isEmpty\<close>, lines 412 to 414.\<close>

definition execute :: "'d \<Rightarrow> 'c action \<Rightarrow> ('c \<times> 'd) list" where
  "execute data a = map (\<lambda>callback. (callback, data)) (action_callbacks a)"

definition isEmpty :: "'c action \<Rightarrow> bool" where
  "isEmpty a = (length (action_callbacks a) = 0)"


section \<open>Properties of the nearest-index search\<close>

lemma binarySearchNearest_body_in_bounds:
  assumes "0 \<le> left" "left < right" "right < int (length dataList)"
    and "binarySearchNearest_body dataList valueKey targetValue left right = (rs, it)"
  shows "(\<forall>j \<in> set rs. left \<le> j \<and> j \<le> right) \<and>
         (case it of Return i \<Rightarrow> left \<le> i \<and> i \<le> right
                   | Next l r \<Rightarrow> left \<le> l \<and> l < r \<and> r \<le> right
                   | Throw e \<Rightarrow> False)"
proof -
  have m: "left \<le> (right + left) div 2" "(right + left) div 2 < right"
    using assms(2) by auto
  show ?thesis
    using assms m
    by (auto simp: binarySearchNearest_body_def at_index_def Let_def split: if_splits)
qed

lemma binarySearchNearest_loop_in_bounds:
  "0 \<le> left \<Longrightarrow> left \<le> right \<Longrightarrow> right < int (length dataList) \<Longrightarrow>
   (\<exists>i. snd (binarySearchNearest_loop dataList valueKey targetValue left right) = Inr i
        \<and> left \<le> i \<and> i \<le> right) \<and>
   (\<forall>j \<in> set (fst (binarySearchNearest_loop dataList valueKey targetValue left right)).
        left \<le> j \<and> j \<le> right)"
proof (induction dataList valueKey targetValue left right rule: binarySearchNearest_loop.induct)
  case (1 dataList valueKey targetValue left right)
  show ?case
  proof (cases "left = right")
    case True
    then show ?thesis
      by (simp add: binarySearchNearest_loop.simps)
  next
    case False
    obtain rs it where b: "binarySearchNearest_body dataList valueKey targetValue left right = (rs, it)"
      by (cases "binarySearchNearest_body dataList valueKey targetValue left right")
    from False "1.prems" have lt: "left < right" by simp
    note bb = binarySearchNearest_body_in_bounds [OF "1.prems"(1) lt "1.prems"(3) b]
    show ?thesis
    proof (cases it)
      case (Return i)
      with bb b False show ?thesis
        by (simp add: binarySearchNearest_loop.simps)
    next
      case (Throw e)
      with bb show ?thesis by simp
    next
      case (Next l r)
      with bb have lr: "left \<le> l" "l < r" "r \<le> right" by simp_all
      have ih: "(\<exists>i. snd (binarySearchNearest_loop dataList valueKey targetValue l r) = Inr i
                    \<and> l \<le> i \<and> i \<le> r) \<and>
                (\<forall>j \<in> set (fst (binarySearchNearest_loop dataList valueKey targetValue l r)).
                    l \<le> j \<and> j \<le> r)"
        using "1.IH" [OF False b [symmetric] Next] lr "1.prems" by simp
      have unfold: "binarySearchNearest_loop dataList valueKey targetValue left right =
            (rs @ fst (binarySearchNearest_loop dataList valueKey targetValue l r),
             snd (binarySearchNearest_loop dataList valueKey targetValue l r))"
        using False b Next
        by (subst binarySearchNearest_loop.simps) (simp add: case_prod_unfold)
      show ?thesis
        unfolding unfold using ih bb lr by fastforce
    qed
  qed
qed

text \<open>
  Claim C10.  On every non-empty list, \<open>binarySearchNearest\<close> raises no error and returns an
  index between 0 and \<open>length - 1\<close>, and every index it reads lies in that range.  On a
  one-element list it returns 0 and reads nothing, as the loop is never entered.  On the
  empty list the bound does not hold: the first pass reads index \<open>-1\<close>, which raises.
\<close>

theorem binarySearchNearest_in_bounds:
  "(dataList \<noteq> [] \<longrightarrow>
      (\<exists>i. binarySearchNearest dataList valueKey targetValue = Inr i
           \<and> 0 \<le> i \<and> i \<le> int (length dataList) - 1) \<and>
      (\<forall>j \<in> set (binarySearchNearest_reads dataList valueKey targetValue).
           0 \<le> j \<and> j \<le> int (length dataList) - 1)) \<and>
   binarySearchNearest [x] valueKey targetValue = Inr 0 \<and>
   binarySearchNearest_reads [x] valueKey targetValue = [] \<and>
   binarySearchNearest [] valueKey targetValue = Inl (TypeError (- 1)) \<and>
   binarySearchNearest_reads [] valueKey targetValue = [- 1]"
proof (intro conjI impI)
  assume ne: "dataList \<noteq> []"
  then have "(0::int) \<le> int (length dataList) - 1" "int (length dataList) - 1 < int (length dataList)"
    by (cases dataList; simp)+
  from binarySearchNearest_loop_in_bounds [OF order_refl this, of valueKey targetValue]
  show "\<exists>i. binarySearchNearest dataList valueKey targetValue = Inr i
           \<and> 0 \<le> i \<and> i \<le> int (length dataList) - 1"
    and "\<forall>j \<in> set (binarySearchNearest_reads dataList valueKey targetValue).
           0 \<le> j \<and> j \<le> int (length dataList) - 1"
    by (simp_all add: binarySearchNearest_def binarySearchNearest_reads_def)
next
  show "binarySearchNearest [x] valueKey targetValue = Inr 0"
    by (simp add: binarySearchNearest_def binarySearchNearest_loop.simps)
next
  show "binarySearchNearest_reads [x] valueKey targetValue = []"
    by (simp add: binarySearchNearest_reads_def binarySearchNearest_loop.simps)
next
  show "binarySearchNearest [] valueKey targetValue = Inl (TypeError (- 1))"
    by (simp add: binarySearchNearest_def binarySearchNearest_loop.simps
        binarySearchNearest_body_def at_index_def Let_def)
next
  show "binarySearchNearest_reads [] valueKey targetValue = [- 1]"
    by (simp add: binarySearchNearest_reads_def binarySearchNearest_loop.simps
        binarySearchNearest_body_def at_index_def Let_def)
qed

theorem binarySearchNearest_in_bounds_witness:
  "[1, 3, 5, 7, 9, 11 :: int] \<noteq> [] \<and>
   (\<exists>i. binarySearchNearest [1, 3, 5, 7, 9, 11 :: int] (\<lambda>v. v) 8 = Inr i \<and> 0 \<le> i \<and> i \<le> 5) \<and>
   list_all (\<lambda>j. 0 \<le> j \<and> j \<le> 5) (binarySearchNearest_reads [1, 3, 5, 7, 9, 11 :: int] (\<lambda>v. v) 8)"
  using binarySearchNearest_in_bounds [of "[1, 3, 5, 7, 9, 11 :: int]" "\<lambda>v. v" 8]
  by (simp add: list_all_iff)

text \<open>
  Claim C1.  The index returned is not always one whose key is nearest to the target.  With
  keys 1 and 10 and target 9 the only pass of the loop tests the three equalities, keeps
  \<^verbatim>\<open>left = 0\<close> (the midpoint is index 0) and breaks, so index 0 is returned although the
  key at index 1 is nearer; with keys 1 and 2 and the target 100, above the maximum, index 0
  is returned as well.
\<close>

theorem binarySearchNearest_not_nearest:
  "binarySearchNearest [1, 10 :: int] (\<lambda>v. v) 9 = Inr 0 \<and>
   \<bar>[1, 10 :: int] ! 1 - 9\<bar> < \<bar>[1, 10 :: int] ! 0 - 9\<bar> \<and>
   binarySearchNearest [1, 2 :: int] (\<lambda>v. v) 100 = Inr 0 \<and>
   \<bar>[1, 2 :: int] ! 1 - 100\<bar> < \<bar>[1, 2 :: int] ! 0 - 100\<bar>"
  by (simp add: binarySearchNearest_def binarySearchNearest_loop.simps
      binarySearchNearest_body_def at_index_def Let_def)

section \<open>Properties of the action bus\<close>

lemma subscribe_twice: "subscribe f (subscribe f a) = subscribe f a"
  by (simp add: subscribe_def)

lemma filter_execute:
  "filter (\<lambda>call. fst call = f) (execute x a) = map (\<lambda>c. (c, x)) (filter (\<lambda>c. c = f) (action_callbacks a))"
  by (simp add: execute_def filter_map comp_def)

lemma distinct_filter_eq:
  "distinct xs \<Longrightarrow> f \<in> set xs \<Longrightarrow> filter (\<lambda>c. c = f) xs = [f]"
  by (induction xs) (auto simp: filter_empty_conv)

text \<open>
  Claim C8.  Subscribing a callback that is already subscribed changes nothing, so after
  \<^verbatim>\<open>subscribe(f); subscribe(f)\<close> on a fresh bus \<^verbatim>\<open>execute(x)\<close> makes the single call
  \<^verbatim>\<open>f(x)\<close>; on any bus whose callbacks are pairwise distinct (which \<^verbatim>\<open>subscribe\<close> and
  \<^verbatim>\<open>unsubscribe\<close> preserve, starting from the empty array) the calls of \<open>f\<close> made by
  \<^verbatim>\<open>execute(x)\<close> are exactly one, with \<open>x\<close>.  After \<^verbatim>\<open>unsubscribe()\<close> with no argument,
  \<^verbatim>\<open>execute(x)\<close> calls nothing.
\<close>

theorem action_subscribe_idempotent:
  "subscribe f (subscribe f a) = subscribe f a \<and>
   execute x (subscribe f (subscribe f newAction)) = [(f, x)] \<and>
   (distinct (action_callbacks a) \<longrightarrow>
      distinct (action_callbacks (subscribe f a)) \<and>
      distinct (action_callbacks (unsubscribe g a)) \<and>
      filter (\<lambda>call. fst call = f) (execute x (subscribe f (subscribe f a))) = [(f, x)]) \<and>
   execute x (unsubscribe None (subscribe f (subscribe f a))) = [] \<and>
   isEmpty (unsubscribe None (subscribe f (subscribe f a)))"
proof (intro conjI impI)
  show "subscribe f (subscribe f a) = subscribe f a" by (rule subscribe_twice)
  show "execute x (subscribe f (subscribe f newAction)) = [(f, x)]"
    by (simp add: subscribe_def newAction_def execute_def)
  show "execute x (unsubscribe None (subscribe f (subscribe f a))) = []"
    by (simp add: unsubscribe_def execute_def)
  show "isEmpty (unsubscribe None (subscribe f (subscribe f a)))"
    by (simp add: unsubscribe_def isEmpty_def)
next
  assume d: "distinct (action_callbacks a)"
  then show d': "distinct (action_callbacks (subscribe f a))"
    by (simp add: subscribe_def)
  from d show "distinct (action_callbacks (unsubscribe g a))"
    by (cases g) (simp_all add: unsubscribe_def)
  have "f \<in> set (action_callbacks (subscribe f a))"
    by (simp add: subscribe_def)
  with d' show "filter (\<lambda>call. fst call = f) (execute x (subscribe f (subscribe f a))) = [(f, x)]"
    by (simp add: subscribe_twice filter_execute distinct_filter_eq)
qed

theorem action_subscribe_idempotent_witness:
  "distinct (action_callbacks (subscribe (2::nat) (subscribe 1 newAction))) \<and>
   execute ''zoom'' (subscribe (1::nat) (subscribe 1 (subscribe 2 (subscribe 1 newAction))))
     = [(1, ''zoom''), (2, ''zoom'')] \<and>
   filter (\<lambda>call. fst call = 1)
     (execute ''zoom'' (subscribe (1::nat) (subscribe 1 (subscribe 2 (subscribe 1 newAction)))))
     = [(1, ''zoom'')] \<and>
   execute ''zoom'' (unsubscribe None (subscribe (1::nat) (subscribe 1 (subscribe 2 (subscribe 1 newAction))))) = []"
  using action_subscribe_idempotent [of "1::nat" "subscribe 2 (subscribe 1 newAction)" "''zoom''" None]
  by (simp add: subscribe_def newAction_def execute_def unsubscribe_def)

section \<open>Properties of the event dispatch tree\<close>

lemma dispatchEvent_loop_first:
  assumes "\<forall>x \<in> set xs. \<not> fst (f x)" and "fst (f c)"
  shows "dispatchEvent_loop f (xs @ c # ys) = (True, concat (map (\<lambda>x. snd (f x)) xs) @ snd (f c))"
  using assms by (induction xs) (auto split: prod.splits)

lemma dispatchEvent_loop_called:
  assumes "\<forall>x \<in> set xs. set (snd (f x)) \<subseteq> S"
  shows "set (snd (dispatchEvent_loop f xs)) \<subseteq> S"
  using assms by (induction xs) (auto split: prod.splits)

lemma onEvent_called: "set (snd (onEvent node name event other)) \<subseteq> {ident node}"
  by (auto simp: onEvent_def split: option.splits)

lemma idents_child: "c \<in> set (children node) \<Longrightarrow> set (idents c) \<subseteq> set (idents node)"
  by (cases node) auto

lemma dispatchEvent_called:
  "set (snd (dispatchEvent node name event other)) \<subseteq> set (idents node)"
proof (induction node name event other rule: dispatchEvent.induct)
  case (1 i ht cbs cs name event other)
  let ?node = "Eventful i ht cbs cs"
  have "\<forall>c \<in> set (rev cs). set (snd (dispatchEvent c name event other)) \<subseteq> set (idents ?node)"
    using 1 by fastforce
  from dispatchEvent_loop_called [OF this]
  have loop: "set (snd (dispatchEvent_loop (\<lambda>child. dispatchEvent child name event other) (rev cs)))
                \<subseteq> set (idents ?node)" .
  have own: "set (snd (onEvent ?node name event other)) \<subseteq> set (idents ?node)"
    using onEvent_called [of ?node name event other] by auto
  show ?case
    using loop own by (auto split: prod.splits)
qed

lemma dispatchEvent_handled:
  assumes "callbacks node name = Some h" and "checkEventOn node event" and "h event other"
  shows "fst (dispatchEvent node name event other)"
proof (cases node)
  case (Eventful i ht cbs cs)
  have "fst (onEvent node name event other)"
    using assms by (simp add: onEvent_def)
  then show ?thesis
    unfolding Eventful by (auto split: prod.splits)
qed

lemma dispatchEvent_loop_nothing:
  assumes "\<forall>x \<in> set xs. f x = (False, [])"
  shows "dispatchEvent_loop f xs = (False, [])"
  using assms by (induction xs) simp_all

lemma dispatchEvent_own:
  assumes "callbacks node name = Some h" and "checkEventOn node event" and "h event other"
    and "\<forall>c \<in> set (children node). dispatchEvent c name event other = (False, [])"
  shows "dispatchEvent node name event other = (True, [ident node])"
proof (cases node)
  case (Eventful i ht cbs cs)
  have "\<forall>c \<in> set (rev cs). dispatchEvent c name event other = (False, [])"
    using assms(4) Eventful by simp
  then have loop: "dispatchEvent_loop (\<lambda>child. dispatchEvent child name event other) (rev cs) = (False, [])"
    by (rule dispatchEvent_loop_nothing)
  have "onEvent node name event other = (True, [ident node])"
    using assms(1-3) by (simp add: onEvent_def)
  then show ?thesis
    unfolding Eventful using loop by simp
qed

lemma dispatchEvent_children:
  assumes "fst (dispatchEvent c name event other)"
    and "\<forall>d \<in> set after. \<not> fst (dispatchEvent d name event other)"
  shows "dispatchEvent (Eventful i ht cbs (before @ c # after)) name event other =
           (True, concat (map (\<lambda>d. snd (dispatchEvent d name event other)) (rev after))
                    @ snd (dispatchEvent c name event other))"
proof -
  have "dispatchEvent_loop (\<lambda>child. dispatchEvent child name event other) (rev after @ c # rev before) =
          (True, concat (map (\<lambda>d. snd (dispatchEvent d name event other)) (rev after))
                    @ snd (dispatchEvent c name event other))"
    using assms by (intro dispatchEvent_loop_first) auto
  then show ?thesis by simp
qed


text \<open>
  Claim C7.  Let \<open>P\<close> have the children \<open>A\<close> and \<open>B\<close>, added in this order, and let \<open>B\<close>
  report a hit and have a handler for the dispatched name that consumes the event (whatever
  \<open>A\<close> is: in particular when \<open>A\<close> too reports a hit and has a consuming handler).  Then
  dispatching on \<open>P\<close> reports handled and calls exactly the handlers that dispatching on \<open>B\<close>
  alone calls: that is the handler of \<open>B\<close> and no other when nothing below \<open>B\<close> takes the
  event (as when \<open>B\<close> has no children), and, the nodes being distinct objects, it is never
  the handler of \<open>P\<close> nor one of \<open>A\<close> or below it.  In general, when a child \<open>c\<close> reports handled
  and no child added after it does, the children added after \<open>c\<close> are tried from the last one
  down, then \<open>c\<close>, and nothing else is called: neither the children added before \<open>c\<close> nor the
  handler of the parent.
\<close>

theorem dispatchEvent_topmost_child:
  assumes "checkEventOn B event" and "callbacks B name = Some hB" and "hB event other"
  shows "dispatchEvent (addChild B (addChild A (Eventful i ht cbs []))) name event other
           = (True, snd (dispatchEvent B name event other)) \<and>
         ((\<forall>c \<in> set (children B). dispatchEvent c name event other = (False, [])) \<longrightarrow>
            dispatchEvent (addChild B (addChild A (Eventful i ht cbs []))) name event other
              = (True, [ident B])) \<and>
         (distinct (idents (addChild B (addChild A (Eventful i ht cbs [])))) \<longrightarrow>
            i \<notin> set (snd (dispatchEvent (addChild B (addChild A (Eventful i ht cbs []))) name event other)) \<and>
            set (idents A) \<inter>
              set (snd (dispatchEvent (addChild B (addChild A (Eventful i ht cbs []))) name event other)) = {}) \<and>
         (\<forall>c before after j g k.
            fst (dispatchEvent c name event other) \<longrightarrow>
            (\<forall>d \<in> set after. \<not> fst (dispatchEvent d name event other)) \<longrightarrow>
            dispatchEvent (Eventful j g k (before @ c # after)) name event other =
              (True, concat (map (\<lambda>d. snd (dispatchEvent d name event other)) (rev after))
                       @ snd (dispatchEvent c name event other)))"
proof -
  have P: "addChild B (addChild A (Eventful i ht cbs [])) = Eventful i ht cbs [A, B]"
    by simp
  let ?P = "Eventful i ht cbs [A, B]"
  have hB: "fst (dispatchEvent B name event other)"
    by (rule dispatchEvent_handled [OF assms(2) assms(1) assms(3)])
  have "dispatchEvent (Eventful i ht cbs ([A] @ B # [])) name event other
          = (True, concat (map (\<lambda>d. snd (dispatchEvent d name event other)) (rev []))
                     @ snd (dispatchEvent B name event other))"
    by (rule dispatchEvent_children [OF hB]) simp
  then have eq: "dispatchEvent ?P name event other = (True, snd (dispatchEvent B name event other))"
    by simp
  have sub: "set (snd (dispatchEvent ?P name event other)) \<subseteq> set (idents B)"
    unfolding eq using dispatchEvent_called [of B name event other] by simp
  have only: "(\<forall>c \<in> set (children B). dispatchEvent c name event other = (False, [])) \<longrightarrow>
                dispatchEvent ?P name event other = (True, [ident B])"
    unfolding eq using dispatchEvent_own [OF assms(2) assms(1) assms(3)] by simp
  have others: "distinct (idents ?P) \<longrightarrow>
      i \<notin> set (snd (dispatchEvent ?P name event other)) \<and>
      set (idents A) \<inter> set (snd (dispatchEvent ?P name event other)) = {}"
    using sub by auto
  have general: "\<forall>c before after j g k.
            fst (dispatchEvent c name event other) \<longrightarrow>
            (\<forall>d \<in> set after. \<not> fst (dispatchEvent d name event other)) \<longrightarrow>
            dispatchEvent (Eventful j g k (before @ c # after)) name event other =
              (True, concat (map (\<lambda>d. snd (dispatchEvent d name event other)) (rev after))
                       @ snd (dispatchEvent c name event other))"
    by (intro allI impI) (rule dispatchEvent_children)
  from eq only others general show ?thesis
    unfolding P by (intro conjI)
qed

theorem dispatchEvent_topmost_child_witness:
  "checkEventOn (registerEvent ''click'' (\<lambda>event other. True)
                   (Eventful 2 (Some (\<lambda>event. True)) Map.empty [])) () \<and>
   dispatchEvent
     (addChild (registerEvent ''click'' (\<lambda>event other. True) (Eventful 2 (Some (\<lambda>event. True)) Map.empty []))
        (addChild (registerEvent ''click'' (\<lambda>event other. True) (Eventful 1 (Some (\<lambda>event. True)) Map.empty []))
           (registerEvent ''click'' (\<lambda>event other. True) (Eventful 0 None Map.empty []))))
     ''click'' () None = (True, [2]) \<and>
   distinct (idents
     (addChild (registerEvent ''click'' (\<lambda>event other. True) (Eventful 2 (Some (\<lambda>event. True)) Map.empty []))
        (addChild (registerEvent ''click'' (\<lambda>event other. True) (Eventful 1 (Some (\<lambda>event. True)) Map.empty []))
           (registerEvent ''click'' (\<lambda>(event::unit) (other::int option). True) (Eventful 0 None Map.empty []))))) \<and>
   dispatchEvent
     (registerEvent ''click'' (\<lambda>event other. True) (Eventful 1 (Some (\<lambda>event. True)) Map.empty []))
     ''click'' () None = (True, [1]) \<and>
   dispatchEvent
     (addChild (registerEvent ''click'' (\<lambda>event other. False) (Eventful 2 (Some (\<lambda>event. True)) Map.empty []))
        (addChild (registerEvent ''click'' (\<lambda>event other. True) (Eventful 1 (Some (\<lambda>event. True)) Map.empty []))
           (registerEvent ''click'' (\<lambda>event other. True) (Eventful 0 None Map.empty []))))
     ''click'' () None = (True, [2, 1])"
proof -
  let ?h = "\<lambda>(event::unit) (other::int option). True"
  let ?n = "\<lambda>(event::unit) (other::int option). False"
  let ?A = "registerEvent ''click'' ?h (Eventful 1 (Some (\<lambda>event. True)) Map.empty [])"
  let ?B = "registerEvent ''click'' ?h (Eventful 2 (Some (\<lambda>event. True)) Map.empty [])"
  let ?B' = "registerEvent ''click'' ?n (Eventful 2 (Some (\<lambda>event. True)) Map.empty [])"
  have hit: "checkEventOn ?B ()" by simp
  have cb: "callbacks ?B ''click'' = Some ?h" by simp
  have consumed: "?h () None" by simp
  have leaf: "\<forall>c \<in> set (children ?B). dispatchEvent c ''click'' () None = (False, [])"
    by simp
  note t = dispatchEvent_topmost_child [OF hit cb consumed, of ?A 0 None "[''click'' \<mapsto> ?h]"]
  have only: "dispatchEvent (addChild ?B (addChild ?A (Eventful 0 None [''click'' \<mapsto> ?h] []))) ''click'' () None
          = (True, [ident ?B])"
    using t leaf by blast
  have dist: "distinct (idents (addChild ?B (addChild ?A (Eventful 0 None [''click'' \<mapsto> ?h] []))))"
    by simp
  have A: "dispatchEvent ?A ''click'' () None = (True, [1])"
    and B': "dispatchEvent ?B' ''click'' () None = (False, [2])"
    by (simp_all add: onEvent_def)
  from t have "fst (dispatchEvent ?A ''click'' () None) \<longrightarrow>
      (\<forall>d \<in> set [?B']. \<not> fst (dispatchEvent d ''click'' () None)) \<longrightarrow>
      dispatchEvent (Eventful 0 None [''click'' \<mapsto> ?h] ([] @ ?A # [?B'])) ''click'' () None =
        (True, concat (map (\<lambda>d. snd (dispatchEvent d ''click'' () None)) (rev [?B']))
                 @ snd (dispatchEvent ?A ''click'' () None))"
    by blast
  with A B' have order: "dispatchEvent (Eventful 0 None [''click'' \<mapsto> ?h] [?A, ?B']) ''click'' () None
      = (True, [2, 1])"
    by simp
  from hit only dist A order show ?thesis
    by simp
qed

section \<open>Properties of the animation driver\<close>

text \<open>
  Claim C4.  \<^verbatim>\<open>stop()\<close> calls the registered frame callback once, with the configured
  duration, exactly when the driver is running at the call, and leaves the running flag
  false.  It does not end the calls made by the stopped run.  \<^verbatim>\<open>stop()\<close> cancels nothing: on
  a driver with duration 100, started at 0, with one frame at 40 and stopped, the \<^verbatim>\<open>step\<close>
  closure of that run is still scheduled.  It does nothing when its frame comes while the
  driver is idle.  But after \<^verbatim>\<open>start()\<close> at 50 two closures are scheduled, the one of the
  stopped run and the one of the new run; each finds \<^verbatim>\<open>_running\<close> true, calls the frame
  callback and requests itself again, so the next animation frame, at 60, makes two calls
  with elapsed 10 and leaves two closures scheduled.  A driver started once, and a driver
  restarted by \<^verbatim>\<open>step\<close> itself after a completed iteration, have one.
\<close>

theorem stop_leaves_step_scheduled:
  "invocations (stop a) =
     invocations a @ (case doFrameCallback a of
                        None \<Rightarrow> []
                      | Some callback \<Rightarrow> if running a then [(callback, duration a)] else []) \<and>
   \<not> running (stop a) \<and>
   scheduled (stop a) = scheduled a \<and>
   invocations (animation_run (newAnimation (Some 100) (Some 2))
     [DoFrame 7, Start 0, Frame 40 40, Stop]) = [(7, 40), (7, 100)] \<and>
   \<not> running (animation_run (newAnimation (Some 100) (Some 2))
     [DoFrame 7, Start 0, Frame 40 40, Stop]) \<and>
   scheduled (animation_run (newAnimation (Some 100) (Some 2))
     [DoFrame 7, Start 0, Frame 40 40, Stop]) = 1 \<and>
   invocations (animation_run (newAnimation (Some 100) (Some 2))
     [DoFrame 7, Start 0, Frame 40 40, Stop, Frame 45 45]) = [(7, 40), (7, 100)] \<and>
   running (animation_run (newAnimation (Some 100) (Some 2))
     [DoFrame 7, Start 0, Frame 40 40, Stop, Start 50]) \<and>
   scheduled (animation_run (newAnimation (Some 100) (Some 2))
     [DoFrame 7, Start 0, Frame 40 40, Stop, Start 50]) = 2 \<and>
   invocations (animation_run (newAnimation (Some 100) (Some 2))
     [DoFrame 7, Start 0, Frame 40 40, Stop, Start 50, Frame 60 60, Frame 60 60])
     = [(7, 40), (7, 100), (7, 10), (7, 10)] \<and>
   scheduled (animation_run (newAnimation (Some 100) (Some 2))
     [DoFrame 7, Start 0, Frame 40 40, Stop, Start 50, Frame 60 60, Frame 60 60]) = 2 \<and>
   scheduled (animation_run (newAnimation (Some 100) (Some 2)) [DoFrame 7, Start 50]) = 1 \<and>
   running (animation_run (newAnimation (Some 100) (Some 2))
     [DoFrame 7, Start 0, Frame 40 40, Frame 100 100]) \<and>
   scheduled (animation_run (newAnimation (Some 100) (Some 2))
     [DoFrame 7, Start 0, Frame 40 40, Frame 100 100]) = 1"
  by (simp add: animation_run_def newAnimation_def doFrame_def start_def loop_def
      requestStep_def frame_def step_def stop_def invokeDoFrameCallback_def
      split: option.splits)

section \<open>The two iterations of a run\<close>

lemmas animation_defs =
  animation_run_def newAnimation_def doFrame_def start_def loop_def requestStep_def
  frame_def step_def stop_def invokeDoFrameCallback_def setDuration_def setIterationCount_def

lemma frame_completion:
  assumes "running a" and "scheduled a = Suc k" and "duration a \<le> now - time a"
  shows "invocations (frame now now' a) = invocations (stop a) \<and>
         currentIterationCount (frame now now' a) = currentIterationCount a + 1 \<and>
         (if currentIterationCount a + 1 < iterationCount a
          then running (frame now now' a) \<and> time (frame now now' a) = now' \<and>
               scheduled (frame now now' a) = Suc k
          else \<not> running (frame now now' a) \<and> scheduled (frame now now' a) = k)"
  using assms
  by (simp add: frame_def step_def stop_def start_def loop_def requestStep_def
      invokeDoFrameCallback_def Let_def split: option.splits)

lemma frames_invariant:
  fixes cb :: nat and d n :: int
  defines "I \<equiv> \<lambda>a. doFrameCallback a = Some cb \<and> duration a = d \<and> iterationCount a = n \<and>
                   0 \<le> currentIterationCount a \<and>
                   length (filter (\<lambda>c. c = (cb, d)) (invocations a)) = nat (currentIterationCount a) \<and>
                   (if running a then currentIterationCount a < n \<and> scheduled a = 1
                    else currentIterationCount a = n \<and> scheduled a = 0)"
  assumes "I a"
  shows "I (animation_run a (map (\<lambda>(now, now'). Frame now now') frames))"
  using assms(2)
proof (induction frames arbitrary: a)
  case Nil
  then show ?case by (simp add: animation_run_def)
next
  case (Cons f frames)
  obtain now now' where f: "f = (now, now')" by (cases f)
  have "I (frame now now' a)"
  proof (cases "running a")
    case False
    with Cons.prems show ?thesis
      by (simp add: I_def frame_def)
  next
    case True
    with Cons.prems have s: "scheduled a = Suc 0" and c: "currentIterationCount a < n"
      by (simp_all add: I_def)
    show ?thesis
    proof (cases "now - time a < duration a")
      case True
      with \<open>running a\<close> s Cons.prems show ?thesis
        by (auto simp: I_def frame_def step_def requestStep_def invokeDoFrameCallback_def Let_def)
    next
      case False
      with \<open>running a\<close> s c Cons.prems show ?thesis
        by (auto simp: I_def frame_def step_def stop_def start_def loop_def requestStep_def
            invokeDoFrameCallback_def Let_def nat_add_distrib)
    qed
  qed
  from Cons.IH [OF this] show ?case
    by (simp add: animation_run_def f)
qed


text \<open>
  Claim C6.  A driver built with duration 100 and iteration count 2, given a frame callback
  and started, is followed through any sequence of frames.  In every state so reached the
  calls of the callback with elapsed time 100 are as many as the iterations completed, at
  most 2; whenever the driver is idle there, they are exactly 2 and nothing is left
  scheduled.  Idle is reached: two frames, each at least 100 ms after the start of its
  iteration, end the run with the two calls.  The call with the duration is the last call of
  an iteration: for any running driver, a frame at or past the duration makes the call of
  \<^verbatim>\<open>stop()\<close>, counts the iteration, and then the driver runs again with the fresh timestamp
  if the incremented counter is below the iteration count, and is idle otherwise.
\<close>

theorem animation_two_iterations:
  "(\<forall>frames.
      length (filter (\<lambda>c. c = (cb, 100))
        (invocations (animation_run (start t0 (doFrame cb (newAnimation (Some 100) (Some 2))))
                        (map (\<lambda>(now, now'). Frame now now') frames))))
        = nat (currentIterationCount
                 (animation_run (start t0 (doFrame cb (newAnimation (Some 100) (Some 2))))
                    (map (\<lambda>(now, now'). Frame now now') frames))) \<and>
      currentIterationCount
        (animation_run (start t0 (doFrame cb (newAnimation (Some 100) (Some 2))))
           (map (\<lambda>(now, now'). Frame now now') frames)) \<le> 2 \<and>
      (\<not> running (animation_run (start t0 (doFrame cb (newAnimation (Some 100) (Some 2))))
                     (map (\<lambda>(now, now'). Frame now now') frames)) \<longrightarrow>
         length (filter (\<lambda>c. c = (cb, 100))
           (invocations (animation_run (start t0 (doFrame cb (newAnimation (Some 100) (Some 2))))
                           (map (\<lambda>(now, now'). Frame now now') frames)))) = 2 \<and>
         scheduled (animation_run (start t0 (doFrame cb (newAnimation (Some 100) (Some 2))))
                      (map (\<lambda>(now, now'). Frame now now') frames)) = 0)) \<and>
   (\<forall>t1 t1' t2 t2'. 100 \<le> t1 - t0 \<longrightarrow> 100 \<le> t2 - t1' \<longrightarrow>
      \<not> running (animation_run (start t0 (doFrame cb (newAnimation (Some 100) (Some 2))))
                    [Frame t1 t1', Frame t2 t2']) \<and>
      invocations (animation_run (start t0 (doFrame cb (newAnimation (Some 100) (Some 2))))
                     [Frame t1 t1', Frame t2 t2']) = [(cb, 100), (cb, 100)]) \<and>
   (\<forall>a now now' k. running a \<longrightarrow> scheduled a = Suc k \<longrightarrow> duration a \<le> now - time a \<longrightarrow>
      invocations (frame now now' a) = invocations (stop a) \<and>
      currentIterationCount (frame now now' a) = currentIterationCount a + 1 \<and>
      (if currentIterationCount a + 1 < iterationCount a
       then running (frame now now' a) \<and> time (frame now now' a) = now' \<and>
            scheduled (frame now now' a) = Suc k
       else \<not> running (frame now now' a) \<and> scheduled (frame now now' a) = k))"
proof (intro conjI)
  let ?a0 = "start t0 (doFrame cb (newAnimation (Some 100) (Some 2)))"
  have init: "doFrameCallback ?a0 = Some cb \<and> duration ?a0 = 100 \<and> iterationCount ?a0 = 2 \<and>
      0 \<le> currentIterationCount ?a0 \<and>
      length (filter (\<lambda>c. c = (cb, 100)) (invocations ?a0)) = nat (currentIterationCount ?a0) \<and>
      (if running ?a0 then currentIterationCount ?a0 < 2 \<and> scheduled ?a0 = 1
       else currentIterationCount ?a0 = 2 \<and> scheduled ?a0 = 0)"
    by (simp add: newAnimation_def doFrame_def start_def loop_def requestStep_def)
  show "\<forall>frames.
      length (filter (\<lambda>c. c = (cb, 100))
        (invocations (animation_run ?a0 (map (\<lambda>(now, now'). Frame now now') frames))))
        = nat (currentIterationCount (animation_run ?a0 (map (\<lambda>(now, now'). Frame now now') frames))) \<and>
      currentIterationCount (animation_run ?a0 (map (\<lambda>(now, now'). Frame now now') frames)) \<le> 2 \<and>
      (\<not> running (animation_run ?a0 (map (\<lambda>(now, now'). Frame now now') frames)) \<longrightarrow>
         length (filter (\<lambda>c. c = (cb, 100))
           (invocations (animation_run ?a0 (map (\<lambda>(now, now'). Frame now now') frames)))) = 2 \<and>
         scheduled (animation_run ?a0 (map (\<lambda>(now, now'). Frame now now') frames)) = 0)"
  proof
    fix frames
    from frames_invariant [OF init, of frames]
    show "length (filter (\<lambda>c. c = (cb, 100))
        (invocations (animation_run ?a0 (map (\<lambda>(now, now'). Frame now now') frames))))
        = nat (currentIterationCount (animation_run ?a0 (map (\<lambda>(now, now'). Frame now now') frames))) \<and>
      currentIterationCount (animation_run ?a0 (map (\<lambda>(now, now'). Frame now now') frames)) \<le> 2 \<and>
      (\<not> running (animation_run ?a0 (map (\<lambda>(now, now'). Frame now now') frames)) \<longrightarrow>
         length (filter (\<lambda>c. c = (cb, 100))
           (invocations (animation_run ?a0 (map (\<lambda>(now, now'). Frame now now') frames)))) = 2 \<and>
         scheduled (animation_run ?a0 (map (\<lambda>(now, now'). Frame now now') frames)) = 0)"
      by (auto split: if_splits)
  qed
  show "\<forall>t1 t1' t2 t2'. 100 \<le> t1 - t0 \<longrightarrow> 100 \<le> t2 - t1' \<longrightarrow>
      \<not> running (animation_run ?a0 [Frame t1 t1', Frame t2 t2']) \<and>
      invocations (animation_run ?a0 [Frame t1 t1', Frame t2 t2']) = [(cb, 100), (cb, 100)]"
    by (simp add: animation_defs)
  show "\<forall>a now now' k. running a \<longrightarrow> scheduled a = Suc k \<longrightarrow> duration a \<le> now - time a \<longrightarrow>
      invocations (frame now now' a) = invocations (stop a) \<and>
      currentIterationCount (frame now now' a) = currentIterationCount a + 1 \<and>
      (if currentIterationCount a + 1 < iterationCount a
       then running (frame now now' a) \<and> time (frame now now' a) = now' \<and>
            scheduled (frame now now' a) = Suc k
       else \<not> running (frame now now' a) \<and> scheduled (frame now now' a) = k)"
    using frame_completion by blast
qed

theorem animation_two_iterations_witness:
  "\<not> running (animation_run (start 0 (doFrame 7 (newAnimation (Some 100) (Some 2))))
                 [Frame 30 30, Frame 100 101, Frame 150 150, Frame 201 201]) \<and>
   invocations (animation_run (start 0 (doFrame 7 (newAnimation (Some 100) (Some 2))))
                 [Frame 30 30, Frame 100 101, Frame 150 150, Frame 201 201])
     = [(7, 30), (7, 100), (7, 49), (7, 100)] \<and>
   length (filter (\<lambda>c. c = (7, 100))
     (invocations (animation_run (start 0 (doFrame 7 (newAnimation (Some 100) (Some 2))))
                 [Frame 30 30, Frame 100 101, Frame 150 150, Frame 201 201]))) = 2 \<and>
   (100::int) \<le> 100 - 0 \<and> (100::int) \<le> 201 - 101 \<and>
   invocations (animation_run (start 0 (doFrame 7 (newAnimation (Some 100) (Some 2))))
                 [Frame 100 101, Frame 201 201]) = [(7, 100), (7, 100)] \<and>
   running (start 0 (doFrame 7 (newAnimation (Some 100) (Some 2)))) \<and>
   scheduled (start 0 (doFrame 7 (newAnimation (Some 100) (Some 2)))) = Suc 0 \<and>
   duration (start 0 (doFrame 7 (newAnimation (Some 100) (Some 2))))
     \<le> 100 - time (start 0 (doFrame 7 (newAnimation (Some 100) (Some 2)))) \<and>
   running (frame 100 101 (start 0 (doFrame 7 (newAnimation (Some 100) (Some 2))))) \<and>
   time (frame 100 101 (start 0 (doFrame 7 (newAnimation (Some 100) (Some 2))))) = 101"
proof -
  let ?a0 = "start 0 (doFrame 7 (newAnimation (Some 100) (Some 2)))"
  let ?r = "animation_run ?a0
              (map (\<lambda>(now, now'). Frame now now') [(30, 30), (100, 101), (150, 150), (201, 201)])"
  note t = animation_two_iterations [of 7 0]
  have idle: "\<not> running ?r"
    and calls: "invocations ?r = [(7, 30), (7, 100), (7, 49), (7, 100)]"
    by (simp_all add: animation_defs)
  have "\<not> running ?r \<longrightarrow> length (filter (\<lambda>c. c = (7, 100)) (invocations ?r)) = 2 \<and> scheduled ?r = 0"
    using t by blast
  with idle have two: "length (filter (\<lambda>c. c = (7, 100)) (invocations ?r)) = 2"
    by blast
  have late: "(100::int) \<le> 100 - 0" "(100::int) \<le> 201 - 101"
    by simp_all
  from t have "100 \<le> 100 - (0::int) \<longrightarrow> 100 \<le> 201 - (101::int) \<longrightarrow>
      \<not> running (animation_run ?a0 [Frame 100 101, Frame 201 201]) \<and>
      invocations (animation_run ?a0 [Frame 100 101, Frame 201 201]) = [(7, 100), (7, 100)]"
    by blast
  with late have settle: "invocations (animation_run ?a0 [Frame 100 101, Frame 201 201]) = [(7, 100), (7, 100)]"
    by blast
  have pre: "running ?a0" "scheduled ?a0 = Suc 0" "duration ?a0 \<le> 100 - time ?a0"
    and cnt: "currentIterationCount ?a0 + 1 < iterationCount ?a0"
    by (simp_all add: newAnimation_def doFrame_def start_def loop_def requestStep_def)
  from t have "running ?a0 \<longrightarrow> scheduled ?a0 = Suc 0 \<longrightarrow> duration ?a0 \<le> 100 - time ?a0 \<longrightarrow>
      invocations (frame 100 101 ?a0) = invocations (stop ?a0) \<and>
      currentIterationCount (frame 100 101 ?a0) = currentIterationCount ?a0 + 1 \<and>
      (if currentIterationCount ?a0 + 1 < iterationCount ?a0
       then running (frame 100 101 ?a0) \<and> time (frame 100 101 ?a0) = 101 \<and>
            scheduled (frame 100 101 ?a0) = Suc 0
       else \<not> running (frame 100 101 ?a0) \<and> scheduled (frame 100 101 ?a0) = 0)"
    by blast
  with pre cnt have again: "running (frame 100 101 ?a0)" "time (frame 100 101 ?a0) = 101"
    by simp_all
  from idle calls two late settle pre again show ?thesis
    by simp
qed

section \<open>The state invariant of the animation driver\<close>







section \<open>Properties of the surface manager\<close>

lemmas canvas_defs =
  update_def mediaQueryListener_def resizeObserverCallback_def resetPixelRatio_def
  executeListener_def requestAnimationFrame_def DEFAULT_REQUEST_ID_def
  fireFrame_def frameCallback_def resetPixelRatio_fn_def newCanvas_def probeResolved_def
  fmul_def fdiv_def to_double_def js_round_def

text \<open>
  Claim C2.  The requests are not always coalesced into one reconciliation.  Take a
  canvas without precise resize reporting, reconciled at 100 by 50 with pixel ratio 2.
  After \<^verbatim>\<open>update(100, 50)\<close>, a plain request to redraw, a frame is pending; \<^verbatim>\<open>update(300, 200)\<close>
  arrives before it fires, sets the style and the pending pixel size 600 by 400, and its
  call of \<^verbatim>\<open>_executeListener\<close> is absorbed together with the closure of
  \<^verbatim>\<open>_resetPixelRatio\<close>.  The frame that fires calls the paint listener once and reconciles
  nothing: the physical size stays 200 by 100 and the recorded size 100 by 50.  In the
  sibling window, where the frame was requested by \<^verbatim>\<open>update(300, 200)\<close> and
  \<^verbatim>\<open>update(500, 400)\<close> follows, the one frame reconciles once, with the latest pending size.
\<close>

theorem executeListener_drops_reconciliation:
  "width (fireFrame fp 100 50 (update fp 100 50 2 (probeResolved False newCanvas))) = 100 \<and>
   height (fireFrame fp 100 50 (update fp 100 50 2 (probeResolved False newCanvas))) = 50 \<and>
   pixelWidth (fireFrame fp 100 50 (update fp 100 50 2 (probeResolved False newCanvas))) = 200 \<and>
   reconciliations (fireFrame fp 100 50 (update fp 100 50 2 (probeResolved False newCanvas))) = 1 \<and>
   listenerCalls (fireFrame fp 100 50 (update fp 100 50 2 (probeResolved False newCanvas))) = 1 \<and>
   frameQueue (update fp 300 200 2 (update fp 100 50 2
     (fireFrame fp 100 50 (update fp 100 50 2 (probeResolved False newCanvas))))) = [NoFn] \<and>
   frameRequests (update fp 300 200 2 (update fp 100 50 2
     (fireFrame fp 100 50 (update fp 100 50 2 (probeResolved False newCanvas))))) = 2 \<and>
   listenerCalls (fireFrame fp 300 200 (update fp 300 200 2 (update fp 100 50 2
     (fireFrame fp 100 50 (update fp 100 50 2 (probeResolved False newCanvas)))))) = 2 \<and>
   reconciliations (fireFrame fp 300 200 (update fp 300 200 2 (update fp 100 50 2
     (fireFrame fp 100 50 (update fp 100 50 2 (probeResolved False newCanvas)))))) = 1 \<and>
   nextPixelWidth (fireFrame fp 300 200 (update fp 300 200 2 (update fp 100 50 2
     (fireFrame fp 100 50 (update fp 100 50 2 (probeResolved False newCanvas)))))) = 600 \<and>
   nextPixelHeight (fireFrame fp 300 200 (update fp 300 200 2 (update fp 100 50 2
     (fireFrame fp 100 50 (update fp 100 50 2 (probeResolved False newCanvas)))))) = 400 \<and>
   pixelWidth (fireFrame fp 300 200 (update fp 300 200 2 (update fp 100 50 2
     (fireFrame fp 100 50 (update fp 100 50 2 (probeResolved False newCanvas)))))) = 200 \<and>
   pixelHeight (fireFrame fp 300 200 (update fp 300 200 2 (update fp 100 50 2
     (fireFrame fp 100 50 (update fp 100 50 2 (probeResolved False newCanvas)))))) = 100 \<and>
   width (fireFrame fp 300 200 (update fp 300 200 2 (update fp 100 50 2
     (fireFrame fp 100 50 (update fp 100 50 2 (probeResolved False newCanvas)))))) = 100 \<and>
   styleWidth (fireFrame fp 300 200 (update fp 300 200 2 (update fp 100 50 2
     (fireFrame fp 100 50 (update fp 100 50 2 (probeResolved False newCanvas)))))) = Some 300 \<and>
   listenerCalls (fireFrame fp 500 400 (update fp 500 400 2 (update fp 300 200 2
     (fireFrame fp 100 50 (update fp 100 50 2 (probeResolved False newCanvas)))))) = 2 \<and>
   reconciliations (fireFrame fp 500 400 (update fp 500 400 2 (update fp 300 200 2
     (fireFrame fp 100 50 (update fp 100 50 2 (probeResolved False newCanvas)))))) = 2 \<and>
   pixelWidth (fireFrame fp 500 400 (update fp 500 400 2 (update fp 300 200 2
     (fireFrame fp 100 50 (update fp 100 50 2 (probeResolved False newCanvas)))))) = 1000 \<and>
   pixelHeight (fireFrame fp 500 400 (update fp 500 400 2 (update fp 300 200 2
     (fireFrame fp 100 50 (update fp 100 50 2 (probeResolved False newCanvas)))))) = 800"
  by (simp add: canvas_defs Let_def)

text \<open>
  The same window under the arithmetic that makes no rounding error: the products taken
  here are whole numbers, which every arithmetic of doubles leaves as they are.
\<close>

theorem executeListener_drops_reconciliation_witness:
  "listenerCalls
     (fireFrame \<lparr>round_error = \<lambda>x. 0, pow_error = \<lambda>e. 0, log10_error = \<lambda>x. 0\<rparr> 300 200
       (update \<lparr>round_error = \<lambda>x. 0, pow_error = \<lambda>e. 0, log10_error = \<lambda>x. 0\<rparr> 300 200 2
         (update \<lparr>round_error = \<lambda>x. 0, pow_error = \<lambda>e. 0, log10_error = \<lambda>x. 0\<rparr> 100 50 2
           (fireFrame \<lparr>round_error = \<lambda>x. 0, pow_error = \<lambda>e. 0, log10_error = \<lambda>x. 0\<rparr> 100 50
             (update \<lparr>round_error = \<lambda>x. 0, pow_error = \<lambda>e. 0, log10_error = \<lambda>x. 0\<rparr> 100 50 2
               (probeResolved False newCanvas)))))) = 2 \<and>
   reconciliations
     (fireFrame \<lparr>round_error = \<lambda>x. 0, pow_error = \<lambda>e. 0, log10_error = \<lambda>x. 0\<rparr> 300 200
       (update \<lparr>round_error = \<lambda>x. 0, pow_error = \<lambda>e. 0, log10_error = \<lambda>x. 0\<rparr> 300 200 2
         (update \<lparr>round_error = \<lambda>x. 0, pow_error = \<lambda>e. 0, log10_error = \<lambda>x. 0\<rparr> 100 50 2
           (fireFrame \<lparr>round_error = \<lambda>x. 0, pow_error = \<lambda>e. 0, log10_error = \<lambda>x. 0\<rparr> 100 50
             (update \<lparr>round_error = \<lambda>x. 0, pow_error = \<lambda>e. 0, log10_error = \<lambda>x. 0\<rparr> 100 50 2
               (probeResolved False newCanvas)))))) = 1 \<and>
   pixelWidth
     (fireFrame \<lparr>round_error = \<lambda>x. 0, pow_error = \<lambda>e. 0, log10_error = \<lambda>x. 0\<rparr> 300 200
       (update \<lparr>round_error = \<lambda>x. 0, pow_error = \<lambda>e. 0, log10_error = \<lambda>x. 0\<rparr> 300 200 2
         (update \<lparr>round_error = \<lambda>x. 0, pow_error = \<lambda>e. 0, log10_error = \<lambda>x. 0\<rparr> 100 50 2
           (fireFrame \<lparr>round_error = \<lambda>x. 0, pow_error = \<lambda>e. 0, log10_error = \<lambda>x. 0\<rparr> 100 50
             (update \<lparr>round_error = \<lambda>x. 0, pow_error = \<lambda>e. 0, log10_error = \<lambda>x. 0\<rparr> 100 50 2
               (probeResolved False newCanvas)))))) = 200 \<and>
   nextPixelWidth
     (fireFrame \<lparr>round_error = \<lambda>x. 0, pow_error = \<lambda>e. 0, log10_error = \<lambda>x. 0\<rparr> 300 200
       (update \<lparr>round_error = \<lambda>x. 0, pow_error = \<lambda>e. 0, log10_error = \<lambda>x. 0\<rparr> 300 200 2
         (update \<lparr>round_error = \<lambda>x. 0, pow_error = \<lambda>e. 0, log10_error = \<lambda>x. 0\<rparr> 100 50 2
           (fireFrame \<lparr>round_error = \<lambda>x. 0, pow_error = \<lambda>e. 0, log10_error = \<lambda>x. 0\<rparr> 100 50
             (update \<lparr>round_error = \<lambda>x. 0, pow_error = \<lambda>e. 0, log10_error = \<lambda>x. 0\<rparr> 100 50 2
               (probeResolved False newCanvas)))))) = 600"
  using executeListener_drops_reconciliation
    [of "\<lparr>round_error = \<lambda>x. 0, pow_error = \<lambda>e. 0, log10_error = \<lambda>x. 0\<rparr>"]
  by blast

text \<open>
  Claim C3.  Called before the capability probe resolves, \<^verbatim>\<open>destroy()\<close> finds neither
  observer nor media-query list, raises nothing and changes nothing.  It leaves no mark for
  the continuation of the probe to test: when the probe resolves afterwards, the
  continuation installs the ResizeObserver on the canvas element (or, without precise resize
  reporting, attaches the media-query listener) all the same, after \<^verbatim>\<open>destroy()\<close> returned.
\<close>

theorem destroy_before_probe_resolves:
  "destroy newCanvas = newCanvas \<and>
   resizeObserver (probeResolved True (destroy newCanvas)) \<and>
   observing (probeResolved True (destroy newCanvas)) \<and>
   mediaQueryList (probeResolved False (destroy newCanvas)) \<and>
   listening (probeResolved False (destroy newCanvas))"
  by (simp add: destroy_def newCanvas_def probeResolved_def)

section \<open>Properties of the tick values\<close>

lemma bounded_range: "0 \<le> b \<Longrightarrow> - b \<le> bounded b e \<and> bounded b e \<le> b"
  by (auto simp: bounded_def)

lemma nice_zero: "nice fp 0 = Inr (Value 1)"
  by (simp add: nice_def log10_def index10_def fdiv_def fmul_def toFixed_def to_double_def)

lemma pow16_int: "(10::real) * 4 ^ 16 \<le> 5 ^ 16" by simp

lemma pow16: "(10::real) \<le> (5 / 4) ^ 16"
proof -
  have "(5 / 4 :: real) ^ 16 = 5 ^ 16 / 4 ^ 16" by (rule power_divide)
  moreover have "(10::real) \<le> 5 ^ 16 / 4 ^ 16"
    using pow16_int by (simp only: pos_le_divide_eq [of "4 ^ 16" 10 "5 ^ 16"] zero_less_power zero_less_numeral)
  ultimately show ?thesis by (simp only:)
qed

lemma root16: "10 powr (1 / 16) \<le> (5 / 4 :: real)"
proof -
  have "(10::real) powr (1 / 16) \<le> ((5 / 4) ^ 16) powr (1 / 16)"
    using pow16 by (intro powr_mono2) simp_all
  also have "((5 / 4 :: real) ^ 16) powr (1 / 16) = ((5 / 4) powr 16) powr (1 / 16)"
    by (simp only: powr_numeral [of "5 / 4" ] divide_nonneg_nonneg zero_le_numeral)
  also have "\<dots> = (5 / 4) powr (16 * (1 / 16))"
    by (rule powr_powr)
  also have "\<dots> = 5 / 4"
    by simp
  finally show ?thesis .
qed

lemma log10_window:
  assumes "5 * 10 ^ 101 \<le> 4 * v" and "v \<le> 7 * 10 ^ 101"
  shows "101 + 1 / 16 \<le> log 10 v \<and> log 10 v < 102 - 1 / 16"
proof -
  define P :: real where "P = 10 ^ 101"
  have P: "0 < P" by (simp add: P_def)
  have v: "5 * P \<le> 4 * v" "v \<le> 7 * P" using assms by (simp_all add: P_def)
  have pos: "0 < v" using P v(1) by linarith
  have p101: "(10::real) powr 101 = P"
    unfolding P_def by (rule powr_numeral) simp
  have p102: "(10::real) powr 102 = 10 * P"
  proof -
    have "(10::real) powr 102 = 10 ^ 102" by (rule powr_numeral) simp
    also have "\<dots> = 10 * 10 ^ 101" by (simp only: power_Suc [symmetric]) simp
    finally show ?thesis by (simp only: P_def)
  qed
  define r :: real where "r = 10 powr (1 / 16)"
  have r: "r \<le> 5 / 4" unfolding r_def by (rule root16)
  have rpos: "0 < r" unfolding r_def by simp
  have "(10::real) powr (101 + 1 / 16) = P * r"
    unfolding r_def p101 [symmetric] by (rule powr_add)
  also have "\<dots> \<le> P * (5 / 4)"
    using r P by (intro mult_left_mono) simp_all
  also have "\<dots> \<le> v" using v(1) P by simp
  finally have lo: "101 + 1 / 16 \<le> log 10 v"
    using pos by (simp only: le_log_iff [of 10 v "101 + 1 / 16"])
  have eq: "(10::real) powr (102 - 1 / 16) = 10 * P / r"
    unfolding r_def p102 [symmetric] by (rule powr_diff)
  have "7 * r < 10" using r by simp
  then have "7 * P * r < 10 * P" using P by simp
  then have "7 * P < 10 * P / r" using rpos by (simp add: pos_less_divide_eq)
  with v(2) have "v < (10::real) powr (102 - 1 / 16)"
    unfolding eq by linarith
  then have hi: "log 10 v < 102 - 1 / 16"
    using pos by (simp only: log_less_iff [of 10 v "102 - 1 / 16"])
  from lo hi show ?thesis ..
qed

lemma nice_RangeError:
  assumes "5 * 10 ^ 101 \<le> 4 * v" and "v \<le> 7 * 10 ^ 101"
  shows "nice fp v = Inl RangeError"
proof -
  have "(0::real) < 5 * 10 ^ 101" by simp
  with assms(1) have pos: "0 < v" by linarith
  define c where "c = bounded (1 / 16) (log10_error fp v)"
  have c: "- (1 / 16) \<le> c" "c \<le> 1 / 16"
    using bounded_range [of "1 / 16" "log10_error fp v"] by (simp_all add: c_def)
  from log10_window [OF assms] c
  have "of_int 101 \<le> log 10 v + c" and "log 10 v + c < of_int 101 + 1"
    by simp_all
  then have fl: "\<lfloor>log 10 v + c\<rfloor> = 101"
    by (rule floor_unique)
  have "log10 fp v = Value (log 10 v + c)"
    using pos by (simp add: log10_def c_def)
  then show ?thesis
    using fl by (simp add: nice_def toFixed_def Let_def)
qed

text \<open>
  Claim C9.  \<^verbatim>\<open>nice(0)\<close> is 1 and raises nothing, as \<^verbatim>\<open>log10(0)\<close> returns 0.  But \<^verbatim>\<open>nice\<close> does
  not return a value on every positive number: on \<open>2^336\<close> (a double, about \<open>1.4e101\<close>) and
  on \<open>5e101\<close>, as on every value from \<open>1.25e101\<close> to \<open>7e101\<close>, the exponent is 101 whatever
  the rounding of the platform, and \<^verbatim>\<open>toFixed(101)\<close> raises a RangeError.
\<close>

theorem nice_raises_RangeError:
  "log10 fp 0 = Value 0 \<and>
   nice fp 0 = Inr (Value 1) \<and>
   nice fp (2 ^ 336) = Inl RangeError \<and>
   nice fp (5 * 10 ^ 101) = Inl RangeError"
proof (intro conjI)
  show "log10 fp 0 = Value 0" by (simp add: log10_def)
  show "nice fp 0 = Inr (Value 1)" by (rule nice_zero)
  show "nice fp (2 ^ 336) = Inl RangeError" by (rule nice_RangeError) simp_all
  show "nice fp (5 * 10 ^ 101) = Inl RangeError" by (rule nice_RangeError) simp_all
qed

end
